theory Spec2Isabelle
  imports Complex_Main "HOL-Library.Sublist"
begin

section \<open>Python values used by the bot\<close>

text \<open>
  A Python \<^verbatim>\<open>str\<close> is a sequence of Unicode code points and \<^verbatim>\<open>len\<close> counts code
  points, so a string is a list of code points (natural numbers). A literal of the
  source is written \<open>str_of ''...''\<close>; all literals used here are ASCII.
\<close>

type_synonym pystr = "nat list"

definition str_of :: "string \<Rightarrow> pystr" where
  "str_of cs = map of_char cs"

text \<open>
  \<^verbatim>\<open>str.isspace\<close> for one code point: the characters Python treats as whitespace
  (TAB..CR, FS..US, SPACE, NEL, NBSP, OGHAM SPACE MARK, EN QUAD..HAIR SPACE,
  LINE and PARAGRAPH SEPARATOR, NARROW NO-BREAK SPACE, MEDIUM MATHEMATICAL SPACE,
  IDEOGRAPHIC SPACE).
\<close>

definition isspace :: "nat \<Rightarrow> bool" where
  "isspace c \<longleftrightarrow>
     (9 \<le> c \<and> c \<le> 13) \<or> (28 \<le> c \<and> c \<le> 32) \<or> c = 133 \<or> c = 160 \<or> c = 5760 \<or>
     (8192 \<le> c \<and> c \<le> 8202) \<or> c = 8232 \<or> c = 8233 \<or> c = 8239 \<or> c = 8287 \<or>
     c = 12288"

text \<open>\<^verbatim>\<open>s.strip()\<close>: whitespace removed from both ends.\<close>

definition strip :: "pystr \<Rightarrow> pystr" where
  "strip s = rev (dropWhile isspace (rev (dropWhile isspace s)))"

text \<open>\<^verbatim>\<open>sep.join(parts)\<close>.\<close>

fun join :: "pystr \<Rightarrow> pystr list \<Rightarrow> pystr" where
  "join sep [] = []"
| "join sep [p] = p"
| "join sep (p # q # ps) = p @ sep @ join sep (q # ps)"

text \<open>
  \<^verbatim>\<open>xs[i:]\<close>: a negative start counts from the end and is clamped at the front, a
  start beyond the end gives the empty list. The slice is a new list.
\<close>

definition slice_from :: "'a list \<Rightarrow> int \<Rightarrow> 'a list" where
  "slice_from xs i =
     (let n = int (length xs);
          j = (if i < 0 then max (n + i) 0 else min i n)
      in drop (nat j) xs)"

section \<open>Configuration (config.py)\<close>

text \<open>
  The class attributes of \<^verbatim>\<open>Config\<close> that the summarizer and the cache read. Each
  is parsed from the environment when the module is loaded, the integers by
  \<^verbatim>\<open>int(...)\<close> with no range check, so every integer is a possible value. The
  temperature is a float that is only handed on to the inference service.
\<close>

record Config =
  OLLAMA_MODEL :: pystr
  MAX_MESSAGES_TO_SUMMARIZE :: int
  MAX_MESSAGE_LENGTH :: int
  MAX_TOKENS :: int
  TEMPERATURE :: rat

text \<open>The values \<^verbatim>\<open>Config\<close> takes when the environment sets none of the variables.\<close>

definition default_config :: Config where
  "default_config = \<lparr>OLLAMA_MODEL = str_of ''mistral'', MAX_MESSAGES_TO_SUMMARIZE = 50,
     MAX_MESSAGE_LENGTH = 2000, MAX_TOKENS = 500, TEMPERATURE = 3 / 10\<rparr>"

section \<open>Messages\<close>

text \<open>
  A cached message is the dict \<^verbatim>\<open>{'author': ..., 'content': ..., 'timestamp': ...}\<close>.
  Both places that build one (\<^verbatim>\<open>cache_message\<close> and \<^verbatim>\<open>get_recent_messages\<close> in
  bot.py) set all three keys, so \<^verbatim>\<open>msg.get('author', d)\<close> and
  \<^verbatim>\<open>msg.get('content', d)\<close> return the stored value and a message is a record. The
  timestamp is an instant, kept as an integer; no function below reads it.
\<close>

record message =
  author :: pystr
  content :: pystr
  timestamp :: int

section \<open>ConversationSummarizer.truncate\_conversation (summarizer.py)\<close>

text \<open>\<^verbatim>\<open>msg_content = f"{msg.get('author', '')}: {msg.get('content', '')}\n"\<close>\<close>

definition msg_content :: "message \<Rightarrow> pystr" where
  "msg_content msg = author msg @ str_of '': '' @ content msg @ str_of [CHR 0x0A]"

definition msg_length :: "message \<Rightarrow> int" where
  "msg_length msg = int (length (msg_content msg))"

text \<open>
  The \<^verbatim>\<open>for msg in reversed(messages)\<close> loop. The first argument is what is left of
  the reversed input, \<open>truncated_messages\<close> and \<open>current_length\<close> are the two
  local variables; \<^verbatim>\<open>insert(0, msg)\<close> puts the message in front, \<^verbatim>\<open>break\<close> ends
  the loop with the list built so far.
\<close>

fun truncate_loop :: "message list \<Rightarrow> int \<Rightarrow> message list \<Rightarrow> int \<Rightarrow> message list" where
  "truncate_loop [] max_length truncated_messages current_length = truncated_messages"
| "truncate_loop (msg # rest) max_length truncated_messages current_length =
     (if current_length + msg_length msg \<le> max_length
      then truncate_loop rest max_length (msg # truncated_messages)
             (current_length + msg_length msg)
      else truncated_messages)"

text \<open>\<^verbatim>\<open>max_length\<close> is optional: \<^verbatim>\<open>None\<close> selects \<^verbatim>\<open>Config.MAX_MESSAGE_LENGTH\<close>.\<close>

definition truncate_conversation :: "Config \<Rightarrow> message list \<Rightarrow> int option \<Rightarrow> message list" where
  "truncate_conversation cfg messages max_length =
     (let max_length = (case max_length of None \<Rightarrow> MAX_MESSAGE_LENGTH cfg | Some n \<Rightarrow> n)
      in truncate_loop (rev messages) max_length [] 0)"

text \<open>
  The total serialized length of a list of messages: each message rendered as
  \<^verbatim>\<open>"{author}: {content}\n"\<close>, the lengths summed.
\<close>

definition serialized_length :: "message list \<Rightarrow> int" where
  "serialized_length ms = sum_list (map msg_length ms)"

section \<open>ConversationSummarizer.\_format\_conversation (summarizer.py)\<close>

text \<open>
  The \<^verbatim>\<open>for msg in messages\<close> loop; the second argument is the local list
  \<open>formatted_messages\<close>. The content is stripped before it is tested and before it
  is rendered; a message whose stripped content is empty is skipped.
\<close>

fun format_loop :: "message list \<Rightarrow> pystr list \<Rightarrow> pystr list" where
  "format_loop [] formatted_messages = formatted_messages"
| "format_loop (msg # rest) formatted_messages =
     (let author_v = author msg;
          content_v = strip (content msg)
      in if content_v \<noteq> []
         then format_loop rest (formatted_messages @ [author_v @ str_of '': '' @ content_v])
         else format_loop rest formatted_messages)"

definition format_conversation :: "message list \<Rightarrow> pystr" where
  "format_conversation messages = join (str_of [CHR 0x0A]) (format_loop messages [])"

text \<open>
  The rendering as the specification words it, for comparison with the code: each
  message whose trimmed content is non-empty rendered as \<^verbatim>\<open>"{author}: {content}"\<close>
  from its two fields, the lines joined by newlines in input order.
\<close>

definition formatConversation_spec :: "message list \<Rightarrow> pystr" where
  "formatConversation_spec messages =
     join (str_of [CHR 0x0A])
       (map (\<lambda>m. author m @ str_of '': '' @ content m)
            (filter (\<lambda>m. strip (content m) \<noteq> []) messages))"

section \<open>The message cache (bot.py)\<close>

text \<open>
  What the bot reads of an incoming Discord message: \<^verbatim>\<open>message.author.bot\<close>,
  \<^verbatim>\<open>message.author.display_name\<close>, \<^verbatim>\<open>message.content\<close>, \<^verbatim>\<open>message.created_at\<close> and
  \<^verbatim>\<open>message.channel.id\<close>.
\<close>

record discord_message =
  author_bot :: bool
  author_display_name :: pystr
  message_content :: pystr
  created_at :: int
  channel_id :: int

text \<open>\<^verbatim>\<open>self.message_cache\<close>: a dict from channel id to the list of cached messages.\<close>

type_synonym message_cache = "int \<rightharpoonup> message list"

text \<open>
  \<^verbatim>\<open>cache_message\<close>. A channel that is not yet a key starts with the empty list; the
  new entry is appended; when the list is then longer than
  \<^verbatim>\<open>Config.MAX_MESSAGES_TO_SUMMARIZE\<close> it is replaced by the slice
  \<^verbatim>\<open>[-Config.MAX_MESSAGES_TO_SUMMARIZE:]\<close>. The function returns the updated dict.
\<close>

definition cache_message :: "Config \<Rightarrow> message_cache \<Rightarrow> discord_message \<Rightarrow> message_cache" where
  "cache_message cfg message_cache message =
     (let cid = channel_id message;
          cached = (case message_cache cid of None \<Rightarrow> [] | Some xs \<Rightarrow> xs);
          cached = cached @ [\<lparr>author = author_display_name message,
                               content = message_content message,
                               timestamp = created_at message\<rparr>]
      in if int (length cached) > MAX_MESSAGES_TO_SUMMARIZE cfg
         then message_cache(cid \<mapsto> slice_from cached (- MAX_MESSAGES_TO_SUMMARIZE cfg))
         else message_cache(cid \<mapsto> cached))"

text \<open>
  \<^verbatim>\<open>on_message\<close>, as far as the cache goes: a message of a bot account returns at
  once, any other message is cached. (\<^verbatim>\<open>process_commands\<close> follows; no command
  handler writes the cache.)
\<close>

definition on_message :: "Config \<Rightarrow> message_cache \<Rightarrow> discord_message \<Rightarrow> message_cache" where
  "on_message cfg message_cache message =
     (if author_bot message then message_cache else cache_message cfg message_cache message)"

text \<open>The dict entry that \<^verbatim>\<open>cache_message\<close> builds from a Discord message.\<close>

definition entry_of :: "discord_message \<Rightarrow> message" where
  "entry_of message = \<lparr>author = author_display_name message,
     content = message_content message, timestamp = created_at message\<rparr>"

section \<open>ConversationSummarizerBot.get\_recent\_messages (bot.py)\<close>

text \<open>
  The other source of conversations, used by the \<^verbatim>\<open>summarize\<close> command. The
  platform's \<^verbatim>\<open>channel.history(limit=limit)\<close> is a parameter: the messages it yields
  for a limit, newest first. The loop keeps a message only when its author is not a
  bot and its stripped content is not empty; the result is reversed into
  chronological order.
\<close>

fun get_recent_messages_loop :: "discord_message list \<Rightarrow> message list \<Rightarrow> message list" where
  "get_recent_messages_loop [] messages = messages"
| "get_recent_messages_loop (message # rest) messages =
     (if \<not> author_bot message \<and> strip (message_content message) \<noteq> []
      then get_recent_messages_loop rest
             (messages @ [\<lparr>author = author_display_name message,
                            content = message_content message,
                            timestamp = created_at message\<rparr>])
      else get_recent_messages_loop rest messages)"

definition get_recent_messages ::
  "Config \<Rightarrow> (int \<Rightarrow> discord_message list) \<Rightarrow> int option \<Rightarrow> message list" where
  "get_recent_messages cfg channel_history limit =
     (let limit = (case limit of None \<Rightarrow> MAX_MESSAGES_TO_SUMMARIZE cfg | Some n \<Rightarrow> n)
      in rev (get_recent_messages_loop (channel_history limit) []))"

section \<open>The inference service and ConversationSummarizer.summarize\_conversation\<close>

text \<open>
  Errors are values: a function that can raise returns \<open>exception + 'a\<close>, with \<open>Inl\<close>
  the exception raised. All three are subclasses of \<^verbatim>\<open>Exception\<close>, which is what
  the \<^verbatim>\<open>except Exception\<close> clauses of the summarizer catch.
\<close>

datatype exception = KeyError pystr | ResponseError pystr | ConnectionError pystr

text \<open>
  The keyword arguments of \<^verbatim>\<open>self.client.chat(...)\<close>: the model, the role-tagged
  messages and the two options.
\<close>

record chat_request =
  req_model :: pystr
  req_messages :: "(pystr \<times> pystr) list"
  req_temperature :: rat
  req_num_predict :: int

text \<open>
  The response is read as \<^verbatim>\<open>response['message']['content']\<close>: a dict of dicts. The
  Ollama service itself is outside the program: it is a parameter, a function that
  answers a request with a response or raises.
\<close>

type_synonym chat_response = "pystr \<rightharpoonup> (pystr \<rightharpoonup> pystr)"

type_synonym ollama_client = "chat_request \<Rightarrow> exception + chat_response"

text \<open>\<^verbatim>\<open>d[k]\<close> on a dict raises \<^verbatim>\<open>KeyError\<close> when the key is missing.\<close>

definition subscript :: "(pystr \<rightharpoonup> 'v) \<Rightarrow> pystr \<Rightarrow> exception + 'v" where
  "subscript d k = (case d k of None \<Rightarrow> Inl (KeyError k) | Some v \<Rightarrow> Inr v)"

definition response_content :: "chat_response \<Rightarrow> exception + pystr" where
  "response_content response =
     (case subscript response (str_of ''message'') of
        Inl e \<Rightarrow> Inl e
      | Inr message \<Rightarrow> subscript message (str_of ''content''))"

definition chat_request_of :: "Config \<Rightarrow> pystr \<Rightarrow> chat_request" where
  "chat_request_of cfg prompt =
     \<lparr>req_model = OLLAMA_MODEL cfg,
      req_messages =
        [(str_of ''system'',
          str_of ''You are a helpful assistant that summarizes conversations. Provide clear, concise summaries that capture the main points and key arguments.''),
         (str_of ''user'', prompt)],
      req_temperature = TEMPERATURE cfg,
      req_num_predict = MAX_TOKENS cfg\<rparr>"

text \<open>
  Every function that may reach the service takes the list of requests sent so far
  and returns it with its result, so that a call to the service is visible.

  \<^verbatim>\<open>_sync_ollama_call\<close>: the call and the two subscripts are the body of the
  \<^verbatim>\<open>try\<close>; any exception is caught and \<^verbatim>\<open>None\<close> returned.
\<close>

definition sync_ollama_call ::
  "Config \<Rightarrow> ollama_client \<Rightarrow> pystr \<Rightarrow> chat_request list
     \<Rightarrow> (exception + pystr option) \<times> chat_request list" where
  "sync_ollama_call cfg client prompt sent =
     (let request = chat_request_of cfg prompt;
          sent = sent @ [request]
      in case client request of
           Inl e \<Rightarrow> (Inr None, sent)
         | Inr response \<Rightarrow>
             (case response_content response of
                Inl e \<Rightarrow> (Inr None, sent)
              | Inr text \<Rightarrow> (Inr (Some text), sent)))"

text \<open>
  \<^verbatim>\<open>_call_ollama\<close>: runs the synchronous call in the executor and hands its result
  on; an exception is caught and \<^verbatim>\<open>None\<close> returned.
\<close>

definition call_ollama ::
  "Config \<Rightarrow> ollama_client \<Rightarrow> pystr \<Rightarrow> chat_request list
     \<Rightarrow> (exception + pystr option) \<times> chat_request list" where
  "call_ollama cfg client prompt sent =
     (case sync_ollama_call cfg client prompt sent of
        (Inl e, sent) \<Rightarrow> (Inr None, sent)
      | (Inr response, sent) \<Rightarrow> (Inr response, sent))"

text \<open>\<^verbatim>\<open>_create_summarization_prompt\<close>: the fixed template around the conversation text.\<close>

definition create_summarization_prompt :: "pystr \<Rightarrow> pystr" where
  "create_summarization_prompt conversation_text =
     str_of [CHR 0x0A] @
     str_of ''Please provide a concise summary of the following conversation. Focus on:'' @
     str_of [CHR 0x0A] @
     str_of ''- The main topic or subject being discussed'' @ str_of [CHR 0x0A] @
     str_of ''- Key points and arguments made by participants'' @ str_of [CHR 0x0A] @
     str_of ''- Any conclusions or decisions reached'' @ str_of [CHR 0x0A] @
     str_of ''- The overall tone and nature of the discussion'' @ str_of [CHR 0x0A] @
     str_of [CHR 0x0A] @
     str_of ''Conversation:'' @ str_of [CHR 0x0A] @
     conversation_text @ str_of [CHR 0x0A] @
     str_of [CHR 0x0A] @
     str_of ''Please provide a clear, well-structured summary in 2-3 sentences.'' @
     str_of [CHR 0x0A]"

text \<open>
  \<^verbatim>\<open>summarize_conversation\<close>. The empty list returns the notice before the \<^verbatim>\<open>try\<close>.
  Otherwise the response is returned stripped when it is truthy (not \<^verbatim>\<open>None\<close>, not
  empty) and its stripped form is truthy; \<^verbatim>\<open>None\<close> is returned in every other case
  and when the body raises.
\<close>

definition summarize_conversation ::
  "Config \<Rightarrow> ollama_client \<Rightarrow> message list \<Rightarrow> chat_request list
     \<Rightarrow> (exception + pystr option) \<times> chat_request list" where
  "summarize_conversation cfg client messages sent =
     (if messages = [] then (Inr (Some (str_of ''No messages to summarize.'')), sent)
      else
        let conversation_text = format_conversation messages;
            prompt = create_summarization_prompt conversation_text
        in case call_ollama cfg client prompt sent of
             (Inl e, sent) \<Rightarrow> (Inr None, sent)
           | (Inr None, sent) \<Rightarrow> (Inr None, sent)
           | (Inr (Some response), sent) \<Rightarrow>
               (if response \<noteq> [] \<and> strip response \<noteq> []
                then (Inr (Some (strip response)), sent)
                else (Inr None, sent)))"

text \<open>
  What the service call yields for a prompt before any \<^verbatim>\<open>except\<close> clause: the
  content of the response, or the exception raised by the call or by a subscript.
\<close>

definition inference :: "Config \<Rightarrow> ollama_client \<Rightarrow> pystr \<Rightarrow> exception + pystr" where
  "inference cfg client prompt =
     (case client (chat_request_of cfg prompt) of
        Inl e \<Rightarrow> Inl e
      | Inr response \<Rightarrow> response_content response)"

section \<open>Lists and dicts as objects\<close>

text \<open>
  Python lists and dicts are objects that are passed by reference:
  \<^verbatim>\<open>summarize_cached\<close> hands the cache's own list to \<^verbatim>\<open>truncate_conversation\<close>. To
  see what the function writes, the objects live in a store. An address is an index:
  \<open>dict_objs\<close> holds the message dicts, \<open>list_objs\<close> the list objects, each a list
  of addresses of dicts. A new object is put at the next free address.
\<close>

record heap =
  dict_objs :: "message list"
  list_objs :: "nat list list"

text \<open>\<^verbatim>\<open>[]\<close>: a new empty list object; its address is returned.\<close>

definition new_list :: "heap \<Rightarrow> heap \<times> nat" where
  "new_list h = (h\<lparr>list_objs := list_objs h @ [[]]\<rparr>, length (list_objs h))"

text \<open>\<^verbatim>\<open>lst.insert(0, msg)\<close> on the list object at address \<open>lst\<close>, in place.\<close>

definition list_insert0 :: "heap \<Rightarrow> nat \<Rightarrow> nat \<Rightarrow> heap" where
  "list_insert0 h lst msg = h\<lparr>list_objs := (list_objs h)[lst := msg # (list_objs h ! lst)]\<rparr>"

text \<open>
  The loop of \<^verbatim>\<open>truncate_conversation\<close> on the store. \<^verbatim>\<open>reversed(messages)\<close> reads
  the list object \<open>messages\<close> by index, from the last index down, in the store as it
  is at that step; the first argument is the number of indices still to visit.
\<close>

fun truncate_loop_heap :: "nat \<Rightarrow> heap \<Rightarrow> nat \<Rightarrow> nat \<Rightarrow> int \<Rightarrow> int \<Rightarrow> heap" where
  "truncate_loop_heap 0 h messages truncated_messages max_length current_length = h"
| "truncate_loop_heap (Suc i) h messages truncated_messages max_length current_length =
     (let msg = list_objs h ! messages ! i;
          msg_len = msg_length (dict_objs h ! msg)
      in if current_length + msg_len \<le> max_length
         then truncate_loop_heap i (list_insert0 h truncated_messages msg) messages
                truncated_messages max_length (current_length + msg_len)
         else h)"

definition truncate_conversation_heap :: "Config \<Rightarrow> heap \<Rightarrow> nat \<Rightarrow> int option \<Rightarrow> heap \<times> nat" where
  "truncate_conversation_heap cfg h messages max_length =
     (let max_length = (case max_length of None \<Rightarrow> MAX_MESSAGE_LENGTH cfg | Some n \<Rightarrow> n);
          (h, truncated_messages) = new_list h
      in (truncate_loop_heap (length (list_objs h ! messages)) h messages truncated_messages
            max_length 0,
          truncated_messages))"

text \<open>The messages that a list object holds.\<close>

definition list_value :: "heap \<Rightarrow> nat \<Rightarrow> message list" where
  "list_value h lst = map (\<lambda>r. dict_objs h ! r) (list_objs h ! lst)"

section \<open>Properties of truncation\<close>

lemma msg_length_ge_3: "3 \<le> msg_length m"
  by (simp add: msg_length_def msg_content_def str_of_def)

lemma serialized_length_Nil: "serialized_length [] = 0"
  by (simp add: serialized_length_def)

lemma serialized_length_Cons: "serialized_length (m # ms) = msg_length m + serialized_length ms"
  by (simp add: serialized_length_def)

lemma serialized_length_append:
  "serialized_length (xs @ ys) = serialized_length xs + serialized_length ys"
  by (simp add: serialized_length_def)

lemma serialized_length_rev: "serialized_length (rev ms) = serialized_length ms"
  by (induction ms) (simp_all add: serialized_length_Nil serialized_length_Cons serialized_length_append)

lemma serialized_length_nonneg: "0 \<le> serialized_length ms"
proof (induction ms)
  case Nil
  show ?case by (simp add: serialized_length_Nil)
next
  case (Cons m ms)
  have "3 \<le> msg_length m" by (rule msg_length_ge_3)
  with Cons show ?case by (simp add: serialized_length_Cons)
qed

text \<open>The loop returns some messages of the walk, in input order, in front of the accumulator.\<close>

lemma truncate_loop_take:
  "\<exists>k. truncate_loop rs C acc cur = rev (take k rs) @ acc"
proof (induction rs arbitrary: acc cur)
  case Nil
  show ?case by simp
next
  case (Cons m rs)
  show ?case
  proof (cases "cur + msg_length m \<le> C")
    case True
    from Cons [of "m # acc" "cur + msg_length m"] obtain k
      where "truncate_loop rs C (m # acc) (cur + msg_length m) = rev (take k rs) @ m # acc"
      by blast
    with True have "truncate_loop (m # rs) C acc cur = rev (take (Suc k) (m # rs)) @ acc"
      by simp
    then show ?thesis by blast
  next
    case False
    then have "truncate_loop (m # rs) C acc cur = rev (take 0 (m # rs)) @ acc"
      by simp
    then show ?thesis by blast
  qed
qed

lemma truncate_loop_budget:
  "serialized_length (truncate_loop rs C acc cur) - serialized_length acc + cur \<le> max cur C"
proof (induction rs arbitrary: acc cur)
  case Nil
  show ?case by simp
next
  case (Cons m rs)
  show ?case
  proof (cases "cur + msg_length m \<le> C")
    case True
    from Cons [of "m # acc" "cur + msg_length m"] True
    show ?thesis by (simp add: serialized_length_Cons)
  next
    case False
    then show ?thesis by simp
  qed
qed

lemma truncate_loop_all:
  "cur + serialized_length rs \<le> C \<Longrightarrow> truncate_loop rs C acc cur = rev rs @ acc"
proof (induction rs arbitrary: acc cur)
  case Nil
  show ?case by simp
next
  case (Cons m rs)
  have "0 \<le> serialized_length rs" by (rule serialized_length_nonneg)
  with Cons.prems have fits: "cur + msg_length m \<le> C"
    by (simp add: serialized_length_Cons)
  from Cons.prems have "cur + msg_length m + serialized_length rs \<le> C"
    by (simp add: serialized_length_Cons)
  then have "truncate_loop rs C (m # acc) (cur + msg_length m) = rev rs @ m # acc"
    by (rule Cons.IH)
  with fits show ?case by simp
qed

lemma truncate_loop_suffix: "suffix (truncate_loop (rev ms) C [] 0) ms"
proof -
  obtain k where "truncate_loop (rev ms) C [] 0 = rev (take k (rev ms)) @ []"
    using truncate_loop_take by blast
  then have "truncate_loop (rev ms) C [] 0 = drop (length ms - k) ms"
    by (simp add: take_rev)
  then show ?thesis by (simp add: suffix_drop)
qed

lemma truncate_loop_keeps_acc: "acc \<noteq> [] \<Longrightarrow> truncate_loop rs C acc cur \<noteq> []"
  using truncate_loop_take [of rs C acc cur] by auto

lemma serialized_length_ge_3: "r \<noteq> [] \<Longrightarrow> 3 \<le> serialized_length r"
proof (cases r)
  case Nil
  assume "r \<noteq> []"
  with Nil show ?thesis by simp
next
  case (Cons m ms)
  have "3 \<le> msg_length m" by (rule msg_length_ge_3)
  moreover have "0 \<le> serialized_length ms" by (rule serialized_length_nonneg)
  ultimately show ?thesis using Cons by (simp add: serialized_length_Cons)
qed

lemma truncate_loop_fits:
  assumes "truncate_loop rs C [] 0 \<noteq> []"
  shows "serialized_length (truncate_loop rs C [] 0) \<le> C"
proof -
  have b: "serialized_length (truncate_loop rs C [] 0) \<le> max 0 C"
    using truncate_loop_budget [of rs C "[]" 0] by (simp add: serialized_length_Nil)
  have "3 \<le> serialized_length (truncate_loop rs C [] 0)"
    using assms by (rule serialized_length_ge_3)
  with b show ?thesis by simp
qed

lemma truncate_loop_idem:
  "truncate_loop (rev (truncate_loop rs C [] 0)) C [] 0 = truncate_loop rs C [] 0"
proof (cases "truncate_loop rs C [] 0 = []")
  case True
  then show ?thesis by simp
next
  case False
  then have "serialized_length (truncate_loop rs C [] 0) \<le> C"
    by (rule truncate_loop_fits)
  then have "0 + serialized_length (rev (truncate_loop rs C [] 0)) \<le> C"
    by (simp add: serialized_length_rev)
  then have "truncate_loop (rev (truncate_loop rs C [] 0)) C [] 0
      = rev (rev (truncate_loop rs C [] 0)) @ []"
    by (rule truncate_loop_all)
  then show ?thesis by simp
qed

lemma truncate_loop_empty_iff:
  "truncate_loop (m # rs) C [] 0 = [] \<longleftrightarrow> C < msg_length m"
proof (cases "msg_length m \<le> C")
  case True
  have "truncate_loop rs C [m] (msg_length m) \<noteq> []"
    by (rule truncate_loop_keeps_acc) simp
  with True show ?thesis by simp
next
  case False
  then show ?thesis by simp
qed

subsection \<open>Suffix and budget\<close>

text \<open>
  C1, as the code has it: for every list of messages and every integer \<open>maxChars\<close>,
  \<open>truncate_conversation\<close> returns a contiguous suffix of its input, in the input's
  order, and the summed length of the kept messages, each serialized as
  \<^verbatim>\<open>"{author}: {content}\n"\<close>, is at most \<open>max 0 maxChars\<close>: at most \<open>maxChars\<close>
  when \<open>maxChars\<close> is not negative, and zero (the empty result) when it is.
\<close>

theorem truncate_suffix_budget:
  "suffix (truncate_conversation cfg msgs (Some maxChars)) msgs \<and>
   serialized_length (truncate_conversation cfg msgs (Some maxChars)) \<le> max 0 maxChars"
proof
  show "suffix (truncate_conversation cfg msgs (Some maxChars)) msgs"
    by (simp add: truncate_conversation_def truncate_loop_suffix)
  show "serialized_length (truncate_conversation cfg msgs (Some maxChars)) \<le> max 0 maxChars"
    using truncate_loop_budget [of "rev msgs" maxChars "[]" 0]
    by (simp add: truncate_conversation_def serialized_length_Nil)
qed

text \<open>
  C1 as stated asks for a summed length at most \<open>maxChars\<close> for every integer. With
  \<open>maxChars = -1\<close> the loop keeps nothing, the summed length is 0, and 0 is not at
  most -1.
\<close>

theorem truncate_negative_budget_counterexample:
  "\<not> (serialized_length (truncate_conversation default_config
         [\<lparr>author = str_of ''A'', content = str_of ''hello'', timestamp = 0\<rparr>] (Some (- 1)))
       \<le> - 1)"
  by (simp add: truncate_conversation_def msg_length_def msg_content_def str_of_def
      serialized_length_def)

subsection \<open>Idempotence\<close>

text \<open>
  C6: truncation is idempotent. Truncating the result of a truncation again with the
  same budget (given explicitly, or defaulted from the configuration) returns it
  unchanged.
\<close>

theorem truncate_idempotent:
  "truncate_conversation cfg (truncate_conversation cfg msgs max_length) max_length
     = truncate_conversation cfg msgs max_length"
  by (simp add: truncate_conversation_def truncate_loop_idem)

subsection \<open>When the result is empty\<close>

text \<open>
  C4: the result of truncation is empty exactly when the input is empty or the
  serialized length of the most recent (last) message alone exceeds \<open>maxChars\<close>. In
  particular the empty input gives the empty result, and a budget \<open>maxChars \<le> 0\<close>
  gives the empty result for every input.
\<close>

theorem truncate_empty_iff:
  "(truncate_conversation cfg msgs (Some maxChars) = [] \<longleftrightarrow>
      msgs = [] \<or> (msgs \<noteq> [] \<and> maxChars < msg_length (last msgs))) \<and>
   truncate_conversation cfg [] (Some maxChars) = [] \<and>
   (maxChars \<le> 0 \<longrightarrow> truncate_conversation cfg msgs (Some maxChars) = [])"
proof (intro conjI)
  show "truncate_conversation cfg msgs (Some maxChars) = [] \<longleftrightarrow>
      msgs = [] \<or> (msgs \<noteq> [] \<and> maxChars < msg_length (last msgs))"
  proof (cases msgs rule: rev_cases)
    case Nil
    then show ?thesis by (simp add: truncate_conversation_def)
  next
    case (snoc ms m)
    then show ?thesis
      by (simp add: truncate_conversation_def truncate_loop_empty_iff del: truncate_loop.simps)
  qed
  show "truncate_conversation cfg [] (Some maxChars) = []"
    by (simp add: truncate_conversation_def)
  show "maxChars \<le> 0 \<longrightarrow> truncate_conversation cfg msgs (Some maxChars) = []"
  proof (cases msgs rule: rev_cases)
    case Nil
    then show ?thesis by (simp add: truncate_conversation_def)
  next
    case (snoc ms m)
    have "3 \<le> msg_length m" by (rule msg_length_ge_3)
    with snoc show ?thesis
      by (simp add: truncate_conversation_def truncate_loop_empty_iff del: truncate_loop.simps)
  qed
qed

text \<open>
  The theorem at the budget 0 and the one-message conversation \<^verbatim>\<open>A: hello\<close>: the
  budget is not positive, the message alone is too long, the result is empty.
\<close>

theorem truncate_empty_iff_witness:
  "(0::int) \<le> 0 \<and>
   truncate_conversation default_config
     [\<lparr>author = str_of ''A'', content = str_of ''hello'', timestamp = 0\<rparr>] (Some 0) = [] \<and>
   (0::int) < msg_length \<lparr>author = str_of ''A'', content = str_of ''hello'', timestamp = 0\<rparr>"
  using truncate_empty_iff [of default_config
     "[\<lparr>author = str_of ''A'', content = str_of ''hello'', timestamp = 0\<rparr>]" 0]
  by (simp add: msg_length_def msg_content_def str_of_def)

section \<open>Properties of formatting\<close>

lemma format_loop_map_filter:
  "format_loop ms acc =
     acc @ map (\<lambda>m. author m @ str_of '': '' @ strip (content m))
               (filter (\<lambda>m. strip (content m) \<noteq> []) ms)"
  by (induction ms arbitrary: acc) (simp_all add: Let_def)

lemma length_strip_le: "length (strip s) \<le> length s"
proof -
  have "length (dropWhile isspace (rev (dropWhile isspace s))) \<le> length (rev (dropWhile isspace s))"
    by (rule length_dropWhile_le)
  also have "\<dots> \<le> length s"
    by (simp add: length_dropWhile_le)
  finally show ?thesis by (simp add: strip_def)
qed

lemma length_join:
  "ps \<noteq> [] \<Longrightarrow>
     int (length (join sep ps)) + int (length sep) = (\<Sum>p\<leftarrow>ps. int (length p) + int (length sep))"
  by (induction sep ps rule: join.induct) simp_all

lemma rendered_le_serialized:
  "(\<Sum>p\<leftarrow>map (\<lambda>m. author m @ str_of '': '' @ strip (content m))
               (filter (\<lambda>m. strip (content m) \<noteq> []) ms). int (length p) + 1)
     \<le> serialized_length ms"
proof (induction ms)
  case Nil
  show ?case by (simp add: serialized_length_Nil)
next
  case (Cons m ms)
  have s: "length (strip (content m)) \<le> length (content m)" by (rule length_strip_le)
  have "0 \<le> msg_length m" using msg_length_ge_3 [of m] by simp
  moreover have "int (length (author m @ str_of '': '' @ strip (content m))) + 1 \<le> msg_length m"
    using s by (simp add: msg_length_def msg_content_def str_of_def)
  ultimately show ?case using Cons by (simp add: serialized_length_Cons)
qed

lemma length_format_le_serialized:
  "int (length (format_conversation ms)) \<le> serialized_length ms"
proof (cases "filter (\<lambda>m. strip (content m) \<noteq> []) ms = []")
  case True
  then have "format_conversation ms = []"
    by (simp add: format_conversation_def format_loop_map_filter)
  then show ?thesis by (simp add: serialized_length_nonneg)
next
  case False
  let ?ps = "map (\<lambda>m. author m @ str_of '': '' @ strip (content m))
               (filter (\<lambda>m. strip (content m) \<noteq> []) ms)"
  from False have ne: "?ps \<noteq> []" by simp
  have "int (length (join (str_of [CHR 0x0A]) ?ps)) + int (length (str_of [CHR 0x0A]))
      = (\<Sum>p\<leftarrow>?ps. int (length p) + int (length (str_of [CHR 0x0A])))"
    using ne by (rule length_join)
  then have "int (length (join (str_of [CHR 0x0A]) ?ps)) + 1 = (\<Sum>p\<leftarrow>?ps. int (length p) + 1)"
    by (simp add: str_of_def)
  moreover have "(\<Sum>p\<leftarrow>?ps. int (length p) + 1) \<le> serialized_length ms"
    by (rule rendered_le_serialized)
  ultimately have "int (length (join (str_of [CHR 0x0A]) ?ps)) \<le> serialized_length ms"
    by linarith
  then show ?thesis by (simp add: format_conversation_def format_loop_map_filter)
qed

text \<open>
  C8, as the code has it: \<open>format_conversation\<close> renders each message whose trimmed
  content is non-empty as the author, \<^verbatim>\<open>": "\<close> and the \<^emph>\<open>trimmed\<close> content, joins these
  lines with newlines in input order, and skips every message whose trimmed content
  is empty. On the two messages \<^verbatim>\<open>{A, "hello"}\<close>, \<^verbatim>\<open>{B, "hi"}\<close> it yields
  \<^verbatim>\<open>"A: hello\nB: hi"\<close>.
\<close>

theorem format_conversation_trimmed:
  "format_conversation msgs =
     join (str_of [CHR 0x0A])
       (map (\<lambda>m. author m @ str_of '': '' @ strip (content m))
            (filter (\<lambda>m. strip (content m) \<noteq> []) msgs)) \<and>
   format_conversation
     [\<lparr>author = str_of ''A'', content = str_of ''hello'', timestamp = t1\<rparr>,
      \<lparr>author = str_of ''B'', content = str_of ''hi'', timestamp = t2\<rparr>]
     = str_of ''A: hello'' @ str_of [CHR 0x0A] @ str_of ''B: hi''"
proof
  show "format_conversation msgs =
     join (str_of [CHR 0x0A])
       (map (\<lambda>m. author m @ str_of '': '' @ strip (content m))
            (filter (\<lambda>m. strip (content m) \<noteq> []) msgs))"
    by (simp add: format_conversation_def format_loop_map_filter)
  show "format_conversation
     [\<lparr>author = str_of ''A'', content = str_of ''hello'', timestamp = t1\<rparr>,
      \<lparr>author = str_of ''B'', content = str_of ''hi'', timestamp = t2\<rparr>]
     = str_of ''A: hello'' @ str_of [CHR 0x0A] @ str_of ''B: hi''"
    by (simp add: format_conversation_def strip_def isspace_def str_of_def)
qed

text \<open>
  C8 as stated renders the message's content field itself. The message
  \<^verbatim>\<open>{A, " hi "}\<close> has a non-empty trimmed content; the code renders it as
  \<^verbatim>\<open>"A: hi"\<close>, not as \<^verbatim>\<open>"A:  hi "\<close>.
\<close>

theorem format_conversation_untrimmed_counterexample:
  "format_conversation [\<lparr>author = str_of ''A'', content = str_of '' hi '', timestamp = 0\<rparr>]
     = str_of ''A: hi'' \<and>
   formatConversation_spec [\<lparr>author = str_of ''A'', content = str_of '' hi '', timestamp = 0\<rparr>]
     = str_of ''A:  hi '' \<and>
   format_conversation [\<lparr>author = str_of ''A'', content = str_of '' hi '', timestamp = 0\<rparr>]
     \<noteq> formatConversation_spec
         [\<lparr>author = str_of ''A'', content = str_of '' hi '', timestamp = 0\<rparr>]"
  by (simp add: format_conversation_def formatConversation_spec_def strip_def isspace_def
      str_of_def)

text \<open>
  C9: for every list of messages and every budget \<open>C \<ge> 0\<close>, the text that
  \<open>format_conversation\<close> builds from the truncated conversation has at most \<open>C\<close>
  characters.
\<close>

theorem formatted_truncation_within_budget:
  assumes "0 \<le> C"
  shows "int (length (format_conversation (truncate_conversation cfg msgs (Some C)))) \<le> C"
proof -
  have "int (length (format_conversation (truncate_conversation cfg msgs (Some C))))
      \<le> serialized_length (truncate_conversation cfg msgs (Some C))"
    by (rule length_format_le_serialized)
  also have "\<dots> \<le> max 0 C"
    using truncate_loop_budget [of "rev msgs" C "[]" 0]
    by (simp add: truncate_conversation_def serialized_length_Nil)
  also have "\<dots> = C" using assms by simp
  finally show ?thesis .
qed

text \<open>
  The theorem at the budget 1000 and the conversation \<^verbatim>\<open>A: hello\<close>, \<^verbatim>\<open>B: hi\<close>, which
  truncation keeps whole: the formatted text has 14 characters.
\<close>

theorem formatted_truncation_within_budget_witness:
  "(0::int) \<le> 1000 \<and>
   truncate_conversation default_config
     [\<lparr>author = str_of ''A'', content = str_of ''hello'', timestamp = 1\<rparr>,
      \<lparr>author = str_of ''B'', content = str_of ''hi'', timestamp = 2\<rparr>] (Some 1000)
     = [\<lparr>author = str_of ''A'', content = str_of ''hello'', timestamp = 1\<rparr>,
        \<lparr>author = str_of ''B'', content = str_of ''hi'', timestamp = 2\<rparr>] \<and>
   int (length (format_conversation (truncate_conversation default_config
     [\<lparr>author = str_of ''A'', content = str_of ''hello'', timestamp = 1\<rparr>,
      \<lparr>author = str_of ''B'', content = str_of ''hi'', timestamp = 2\<rparr>] (Some 1000)))) \<le> 1000"
  using formatted_truncation_within_budget [of 1000 default_config
     "[\<lparr>author = str_of ''A'', content = str_of ''hello'', timestamp = 1\<rparr>,
       \<lparr>author = str_of ''B'', content = str_of ''hi'', timestamp = 2\<rparr>]"]
  by (simp add: truncate_conversation_def msg_length_def msg_content_def str_of_def)

section \<open>Properties of the message cache\<close>

lemma slice_from_neg:
  "1 \<le> n \<Longrightarrow> slice_from xs (- n) = drop (length xs - nat n) xs"
  by (auto simp add: slice_from_def Let_def max_def nat_diff_distrib' intro!: arg_cong2 [of _ _ _ _ drop])

lemma cache_message_same:
  "cache_message cfg cache m (channel_id m) =
     Some (let cached = (case cache (channel_id m) of None \<Rightarrow> [] | Some xs \<Rightarrow> xs) @ [entry_of m]
           in if int (length cached) > MAX_MESSAGES_TO_SUMMARIZE cfg
              then slice_from cached (- MAX_MESSAGES_TO_SUMMARIZE cfg) else cached)"
  by (simp add: cache_message_def entry_of_def Let_def)

lemma cache_message_other:
  "ch \<noteq> channel_id m \<Longrightarrow> cache_message cfg cache m ch = cache ch"
  by (simp add: cache_message_def Let_def)

text \<open>
  With a positive limit the cache is bounded: \<open>cache_message\<close> keeps every channel's
  list at most \<^verbatim>\<open>MAX_MESSAGES_TO_SUMMARIZE\<close> long, and the channel written holds the
  last entries of the old list followed by the new entry.
\<close>

lemma cache_message_last_entries:
  assumes "1 \<le> MAX_MESSAGES_TO_SUMMARIZE cfg"
  shows "cache_message cfg cache m (channel_id m) =
     Some (let cached = (case cache (channel_id m) of None \<Rightarrow> [] | Some xs \<Rightarrow> xs) @ [entry_of m]
           in drop (length cached - nat (MAX_MESSAGES_TO_SUMMARIZE cfg)) cached)"
  using assms by (simp add: cache_message_same Let_def slice_from_neg)

lemma cache_message_bounded:
  assumes pos: "1 \<le> MAX_MESSAGES_TO_SUMMARIZE cfg"
    and inv: "\<And>ch xs. cache ch = Some xs \<Longrightarrow> int (length xs) \<le> MAX_MESSAGES_TO_SUMMARIZE cfg"
    and new: "cache_message cfg cache m ch = Some ys"
  shows "int (length ys) \<le> MAX_MESSAGES_TO_SUMMARIZE cfg"
proof (cases "ch = channel_id m")
  case True
  with new pos show ?thesis
    by (auto simp add: cache_message_last_entries Let_def)
next
  case False
  with new have "cache ch = Some ys" by (simp add: cache_message_other)
  then show ?thesis by (rule inv)
qed

lemma record_all_bounded:
  assumes pos: "1 \<le> MAX_MESSAGES_TO_SUMMARIZE cfg"
    and inv: "\<And>ch xs. cache ch = Some xs \<Longrightarrow> int (length xs) \<le> MAX_MESSAGES_TO_SUMMARIZE cfg"
    and new: "foldl (cache_message cfg) cache ms ch = Some ys"
  shows "int (length ys) \<le> MAX_MESSAGES_TO_SUMMARIZE cfg"
  using inv new
proof (induction ms arbitrary: cache ch ys)
  case Nil
  then show ?case by simp
next
  case (Cons m ms)
  have "\<And>ch xs. cache_message cfg cache m ch = Some xs \<Longrightarrow>
      int (length xs) \<le> MAX_MESSAGES_TO_SUMMARIZE cfg"
    using pos Cons.prems(1) by (rule cache_message_bounded)
  moreover from Cons.prems(2) have "foldl (cache_message cfg) (cache_message cfg cache m) ms ch = Some ys"
    by simp
  ultimately show ?case by (rule Cons.IH)
qed

lemma four_records_limit_three:
  assumes "MAX_MESSAGES_TO_SUMMARIZE cfg = 3"
    and "channel_id m1 = c" "channel_id m2 = c" "channel_id m3 = c" "channel_id m4 = c"
  shows "foldl (cache_message cfg) Map.empty [m1, m2, m3, m4] c
     = Some [entry_of m2, entry_of m3, entry_of m4]"
  using assms by (simp add: cache_message_def entry_of_def Let_def slice_from_def)

lemma on_message_bot_unchanged: "author_bot m \<Longrightarrow> on_message cfg cache m = cache"
  by (simp add: on_message_def)

text \<open>
  C2 at the limit 0: the slice \<^verbatim>\<open>[-0:]\<close> is the whole list, so nothing is evicted.
  After two records into an empty cache with \<^verbatim>\<open>MAX_MESSAGES_TO_SUMMARIZE = 0\<close> the
  channel holds both entries, a list of length 2.
\<close>

theorem cache_message_limit_zero_keeps_all:
  "cache_message (default_config\<lparr>MAX_MESSAGES_TO_SUMMARIZE := 0\<rparr>)
     (cache_message (default_config\<lparr>MAX_MESSAGES_TO_SUMMARIZE := 0\<rparr>) Map.empty
        \<lparr>author_bot = False, author_display_name = str_of ''A'',
         message_content = str_of ''hello'', created_at = 1, channel_id = 7\<rparr>)
     \<lparr>author_bot = False, author_display_name = str_of ''B'',
      message_content = str_of ''hi'', created_at = 2, channel_id = 7\<rparr> 7
   = Some [\<lparr>author = str_of ''A'', content = str_of ''hello'', timestamp = 1\<rparr>,
           \<lparr>author = str_of ''B'', content = str_of ''hi'', timestamp = 2\<rparr>]"
  by (simp add: cache_message_def default_config_def Let_def slice_from_def)

text \<open>
  \<open>get_recent_messages\<close> filters what \<open>on_message\<close> does not: no message it returns
  has an empty or whitespace-only content.
\<close>

lemma get_recent_messages_loop_nonblank:
  "(\<And>m. m \<in> set acc \<Longrightarrow> strip (content m) \<noteq> []) \<Longrightarrow>
   m \<in> set (get_recent_messages_loop hist acc) \<Longrightarrow> strip (content m) \<noteq> []"
proof (induction hist arbitrary: acc)
  case Nil
  then show ?case by simp
next
  case (Cons d hist)
  show ?case
  proof (cases "\<not> author_bot d \<and> strip (message_content d) \<noteq> []")
    case True
    let ?acc = "acc @ [\<lparr>author = author_display_name d, content = message_content d,
                        timestamp = created_at d\<rparr>]"
    have "\<And>m. m \<in> set ?acc \<Longrightarrow> strip (content m) \<noteq> []"
      using Cons.prems(1) True by auto
    moreover have "m \<in> set (get_recent_messages_loop hist ?acc)"
      using Cons.prems(2) True by simp
    ultimately show ?thesis by (rule Cons.IH)
  next
    case False
    then have "m \<in> set (get_recent_messages_loop hist acc)"
      using Cons.prems(2) by auto
    with Cons.prems(1) show ?thesis by (rule Cons.IH)
  qed
qed

lemma get_recent_messages_nonblank:
  "m \<in> set (get_recent_messages cfg channel_history limit) \<Longrightarrow> strip (content m) \<noteq> []"
  by (rule get_recent_messages_loop_nonblank [of "[]"]) (simp_all add: get_recent_messages_def)

text \<open>
  C3 at two messages of a user account: one with the empty content (what Discord
  delivers for a message that is only an attachment) and one with a whitespace-only
  content. \<open>on_message\<close> caches both: each time the empty cache becomes a cache
  whose channel 7 holds the message.
\<close>

theorem on_message_caches_blank:
  "on_message default_config Map.empty
     \<lparr>author_bot = False, author_display_name = str_of ''A'',
      message_content = str_of [], created_at = 1, channel_id = 7\<rparr> 7
   = Some [\<lparr>author = str_of ''A'', content = str_of [], timestamp = 1\<rparr>] \<and>
   strip (str_of []) = [] \<and>
   on_message default_config Map.empty
     \<lparr>author_bot = False, author_display_name = str_of ''A'',
      message_content = str_of ''   '', created_at = 1, channel_id = 7\<rparr> 7
   = Some [\<lparr>author = str_of ''A'', content = str_of ''   '', timestamp = 1\<rparr>] \<and>
   strip (str_of ''   '') = []"
  by (simp add: on_message_def cache_message_def default_config_def Let_def strip_def
      isspace_def str_of_def)

section \<open>Properties of summarization\<close>

lemma sync_ollama_call_inference:
  "sync_ollama_call cfg client prompt sent =
     (case inference cfg client prompt of
        Inl e \<Rightarrow> (Inr None, sent @ [chat_request_of cfg prompt])
      | Inr text \<Rightarrow> (Inr (Some text), sent @ [chat_request_of cfg prompt]))"
  by (simp add: sync_ollama_call_def inference_def Let_def split: sum.splits)

lemma call_ollama_inference:
  "call_ollama cfg client prompt sent =
     (case inference cfg client prompt of
        Inl e \<Rightarrow> (Inr None, sent @ [chat_request_of cfg prompt])
      | Inr text \<Rightarrow> (Inr (Some text), sent @ [chat_request_of cfg prompt]))"
  by (simp add: call_ollama_def sync_ollama_call_inference split: sum.splits)

lemma strip_Nil: "strip [] = []"
  by (simp add: strip_def)

lemma summarize_conversation_nonempty:
  assumes "msgs \<noteq> []"
  shows "summarize_conversation cfg client msgs sent =
     (case inference cfg client (create_summarization_prompt (format_conversation msgs)) of
        Inl e \<Rightarrow> Inr None
      | Inr text \<Rightarrow> if strip text = [] then Inr None else Inr (Some (strip text)),
      sent @ [chat_request_of cfg (create_summarization_prompt (format_conversation msgs))])"
  using assms
  by (auto simp add: summarize_conversation_def call_ollama_inference Let_def strip_Nil
      split: sum.splits)

text \<open>
  C5: for every non-empty list of messages \<open>summarize_conversation\<close> returns a value
  (\<open>Inr\<close>, never a raised exception \<open>Inl\<close>). When the service answers with a text
  whose stripped form is not empty, the result is that stripped text; when the service
  call raises, or the answer is empty or whitespace only, the result is \<^verbatim>\<open>None\<close>. The
  result is never the empty string.
\<close>

theorem summarize_conversation_total:
  assumes "msgs \<noteq> []"
  shows "(\<exists>r. fst (summarize_conversation cfg client msgs sent) = Inr r) \<and>
     (\<forall>text. inference cfg client (create_summarization_prompt (format_conversation msgs)) = Inr text
          \<and> strip text \<noteq> []
        \<longrightarrow> fst (summarize_conversation cfg client msgs sent) = Inr (Some (strip text))) \<and>
     (\<forall>text. inference cfg client (create_summarization_prompt (format_conversation msgs)) = Inr text
          \<and> strip text = []
        \<longrightarrow> fst (summarize_conversation cfg client msgs sent) = Inr None) \<and>
     (\<forall>e. inference cfg client (create_summarization_prompt (format_conversation msgs)) = Inl e
        \<longrightarrow> fst (summarize_conversation cfg client msgs sent) = Inr None) \<and>
     fst (summarize_conversation cfg client msgs sent) \<noteq> Inr (Some [])"
  using assms by (auto simp add: summarize_conversation_nonempty split: sum.splits)

text \<open>
  The theorem at the one-message conversation \<^verbatim>\<open>A: hello\<close>, once with a service that
  answers \<^verbatim>\<open>" Greetings. "\<close> (the result is the stripped answer) and once with a
  service that refuses the connection (the result is \<^verbatim>\<open>None\<close>).
\<close>

theorem summarize_conversation_total_witness:
  "[\<lparr>author = str_of ''A'', content = str_of ''hello'', timestamp = 1\<rparr>] \<noteq> [] \<and>
   fst (summarize_conversation default_config
          (\<lambda>request. Inr [str_of ''message'' \<mapsto> [str_of ''content'' \<mapsto> str_of '' Greetings. '']])
          [\<lparr>author = str_of ''A'', content = str_of ''hello'', timestamp = 1\<rparr>] [])
     = Inr (Some (str_of ''Greetings.'')) \<and>
   fst (summarize_conversation default_config
          (\<lambda>request. Inl (ConnectionError (str_of ''refused'')))
          [\<lparr>author = str_of ''A'', content = str_of ''hello'', timestamp = 1\<rparr>] [])
     = Inr None"
  using summarize_conversation_total [of
      "[\<lparr>author = str_of ''A'', content = str_of ''hello'', timestamp = 1\<rparr>]" default_config
      "\<lambda>request. Inr [str_of ''message'' \<mapsto> [str_of ''content'' \<mapsto> str_of '' Greetings. '']]" "[]"]
    summarize_conversation_total [of
      "[\<lparr>author = str_of ''A'', content = str_of ''hello'', timestamp = 1\<rparr>]" default_config
      "\<lambda>request. Inl (ConnectionError (str_of ''refused''))" "[]"]
  by (simp add: inference_def response_content_def subscript_def strip_def isspace_def str_of_def)

text \<open>
  C7: on the empty list \<open>summarize_conversation\<close> returns the fixed notice
  \<^verbatim>\<open>"No messages to summarize."\<close>, a string and not the failure value \<^verbatim>\<open>None\<close>,
  whatever the service would do, and the list of requests sent to the service is
  unchanged: the service is not called.
\<close>

theorem summarize_conversation_empty:
  "summarize_conversation cfg client [] sent
     = (Inr (Some (str_of ''No messages to summarize.'')), sent)"
  by (simp add: summarize_conversation_def)

section \<open>Truncation on the store\<close>

lemma list_insert0_dicts: "dict_objs (list_insert0 h t r) = dict_objs h"
  by (simp add: list_insert0_def)

lemma list_insert0_length: "length (list_objs (list_insert0 h t r)) = length (list_objs h)"
  by (simp add: list_insert0_def)

lemma list_insert0_other: "j \<noteq> t \<Longrightarrow> list_objs (list_insert0 h t r) ! j = list_objs h ! j"
  by (simp add: list_insert0_def)

lemma list_insert0_same:
  "t < length (list_objs h) \<Longrightarrow> list_objs (list_insert0 h t r) ! t = r # list_objs h ! t"
  by (simp add: list_insert0_def)

text \<open>
  The loop writes the list object \<open>t\<close> only, and what it builds there is what the
  loop on values builds from the values of the input list.
\<close>

lemma truncate_loop_heap_frame:
  assumes "t < length (list_objs h)" "a \<noteq> t" "i \<le> length (list_objs h ! a)"
  shows "dict_objs (truncate_loop_heap i h a t C cur) = dict_objs h \<and>
     length (list_objs (truncate_loop_heap i h a t C cur)) = length (list_objs h) \<and>
     (\<forall>j. j \<noteq> t \<longrightarrow> list_objs (truncate_loop_heap i h a t C cur) ! j = list_objs h ! j) \<and>
     list_value (truncate_loop_heap i h a t C cur) t
       = truncate_loop (rev (take i (list_value h a))) C (list_value h t) cur"
  using assms
proof (induction i arbitrary: h cur)
  case 0
  show ?case by simp
next
  case (Suc i)
  let ?r = "list_objs h ! a ! i"
  let ?h1 = "list_insert0 h t ?r"
  from Suc.prems have i: "i < length (list_objs h ! a)" by simp
  then have step: "rev (take (Suc i) (list_value h a))
      = dict_objs h ! ?r # rev (take i (list_value h a))"
    by (simp add: list_value_def take_Suc_conv_app_nth)
  show ?case
  proof (cases "cur + msg_length (dict_objs h ! ?r) \<le> C")
    case False
    then show ?thesis by (simp add: step Let_def)
  next
    case True
    have t1: "t < length (list_objs ?h1)"
      using Suc.prems(1) by (simp add: list_insert0_length)
    have a1: "list_objs ?h1 ! a = list_objs h ! a"
      using Suc.prems(2) by (simp add: list_insert0_other)
    then have i1: "i \<le> length (list_objs ?h1 ! a)" using i by simp
    note IH = Suc.IH [OF t1 Suc.prems(2) i1, of "cur + msg_length (dict_objs h ! ?r)"]
    have va: "list_value ?h1 a = list_value h a"
      by (simp add: list_value_def a1 list_insert0_dicts)
    have vt: "list_value ?h1 t = dict_objs h ! ?r # list_value h t"
      using Suc.prems(1) by (simp add: list_value_def list_insert0_same list_insert0_dicts)
    have unfold: "truncate_loop_heap (Suc i) h a t C cur
        = truncate_loop_heap i ?h1 a t C (cur + msg_length (dict_objs h ! ?r))"
      using True by (simp add: Let_def)
    show ?thesis
      unfolding unfold
      using IH True
      by (simp add: step va vt list_insert0_dicts list_insert0_length list_insert0_other)
  qed
qed

text \<open>
  C10: \<open>truncate_conversation\<close> does not write its input. Called on the list object
  at an allocated address, it returns a list object at a new address (so not the
  input's), leaves every message dict as it was, leaves every list object that
  existed before the call as it was, the input list among them, and the new list holds
  the messages that truncation of the input's value selects.
\<close>

theorem truncate_conversation_heap_frame:
  assumes "messages < length (list_objs h)"
  shows "case truncate_conversation_heap cfg h messages max_length of
       (h', result) \<Rightarrow>
         result = length (list_objs h) \<and> result \<noteq> messages \<and>
         dict_objs h' = dict_objs h \<and>
         take (length (list_objs h)) (list_objs h') = list_objs h \<and>
         list_value h' messages = list_value h messages \<and>
         list_value h' result = truncate_conversation cfg (list_value h messages) max_length"
proof -
  define C where "C = (case max_length of None \<Rightarrow> MAX_MESSAGE_LENGTH cfg | Some n \<Rightarrow> n)"
  define t where "t = length (list_objs h)"
  define h0 where "h0 = h\<lparr>list_objs := list_objs h @ [[]]\<rparr>"
  define h' where "h' = truncate_loop_heap (length (list_objs h0 ! messages)) h0 messages t C 0"
  have call: "truncate_conversation_heap cfg h messages max_length = (h', t)"
    by (simp add: truncate_conversation_heap_def new_list_def Let_def C_def t_def h0_def h'_def)
  have t0: "t < length (list_objs h0)" by (simp add: t_def h0_def)
  have ne: "messages \<noteq> t" using assms by (simp add: t_def)
  have in0: "list_objs h0 ! messages = list_objs h ! messages"
    using assms by (simp add: h0_def nth_append)
  have frame: "dict_objs h' = dict_objs h0 \<and>
     length (list_objs h') = length (list_objs h0) \<and>
     (\<forall>j. j \<noteq> t \<longrightarrow> list_objs h' ! j = list_objs h0 ! j) \<and>
     list_value h' t
       = truncate_loop (rev (take (length (list_objs h0 ! messages)) (list_value h0 messages))) C
           (list_value h0 t) 0"
    unfolding h'_def by (rule truncate_loop_heap_frame [OF t0 ne]) simp
  have dicts: "dict_objs h' = dict_objs h" using frame by (simp add: h0_def)
  have old: "take (length (list_objs h)) (list_objs h') = list_objs h"
  proof (rule nth_equalityI)
    show "length (take (length (list_objs h)) (list_objs h')) = length (list_objs h)"
      using frame by (simp add: h0_def)
    fix j
    assume "j < length (take (length (list_objs h)) (list_objs h'))"
    then have j: "j < length (list_objs h)" by simp
    then have "j \<noteq> t" by (simp add: t_def)
    with frame have "list_objs h' ! j = list_objs h0 ! j" by blast
    with j show "take (length (list_objs h)) (list_objs h') ! j = list_objs h ! j"
      by (simp add: h0_def nth_append)
  qed
  have same: "list_objs h' ! messages = list_objs h ! messages"
    using frame ne in0 by simp
  have input: "list_value h' messages = list_value h messages"
    by (simp add: list_value_def same dicts)
  have v0: "list_value h0 messages = list_value h messages"
    using in0 by (simp add: list_value_def h0_def)
  have vt: "list_value h0 t = []"
    by (simp add: list_value_def h0_def t_def)
  have len: "length (list_value h messages) = length (list_objs h ! messages)"
    by (simp add: list_value_def)
  have "take (length (list_objs h0 ! messages)) (list_value h0 messages) = list_value h messages"
    unfolding v0 in0 using len by simp
  with frame have result: "list_value h' t = truncate_conversation cfg (list_value h messages) max_length"
    by (simp add: vt truncate_conversation_def C_def)
  show ?thesis
    unfolding call using ne dicts old input result by (simp add: t_def)
qed

text \<open>
  The theorem on a store with the two message dicts \<^verbatim>\<open>A: hello\<close>, \<^verbatim>\<open>B: hi\<close> and one
  list object holding both, truncated to 8 characters: the new list object at address
  1 holds the second dict, the list object at address 0 still holds both.
\<close>

theorem truncate_conversation_heap_frame_witness:
  "(0::nat) < length (list_objs
       \<lparr>dict_objs = [\<lparr>author = str_of ''A'', content = str_of ''hello'', timestamp = 1\<rparr>,
                     \<lparr>author = str_of ''B'', content = str_of ''hi'', timestamp = 2\<rparr>],
        list_objs = [[0, 1]]\<rparr>) \<and>
   truncate_conversation_heap default_config
       \<lparr>dict_objs = [\<lparr>author = str_of ''A'', content = str_of ''hello'', timestamp = 1\<rparr>,
                     \<lparr>author = str_of ''B'', content = str_of ''hi'', timestamp = 2\<rparr>],
        list_objs = [[0, 1]]\<rparr> 0 (Some 8)
     = (\<lparr>dict_objs = [\<lparr>author = str_of ''A'', content = str_of ''hello'', timestamp = 1\<rparr>,
                       \<lparr>author = str_of ''B'', content = str_of ''hi'', timestamp = 2\<rparr>],
          list_objs = [[0, 1], [1]]\<rparr>, 1)"
  using truncate_conversation_heap_frame [of 0
       "\<lparr>dict_objs = [\<lparr>author = str_of ''A'', content = str_of ''hello'', timestamp = 1\<rparr>,
                      \<lparr>author = str_of ''B'', content = str_of ''hi'', timestamp = 2\<rparr>],
         list_objs = [[0, 1]]\<rparr>" default_config "Some 8"]
  by (simp add: truncate_conversation_heap_def new_list_def list_insert0_def Let_def
      msg_length_def msg_content_def str_of_def numeral_2_eq_2)

end
